theory Spec2Isabelle
  imports Complex_Main "HOL-Library.Log_Nat"
begin

section \<open>The behavioural verification engine of RhythmCaptcha\<close>

text \<open>
  The development embeds the class \<open>BehaviorAnalyzer\<close> (telemetry collector and scoring
  engine) and the parts of the component \<open>RhythmCaptcha\<close> that evaluate the two challenges
  and report the verdict.

  Numbers. A JavaScript number is an IEEE-754 double. Timestamps (\<open>Date.now()\<close> and
  differences of timestamps), beat offsets and counters are integers far below \<open>2^53\<close>
  and are modelled as \<open>int\<close> and \<open>nat\<close>. The analyzer computes with square roots and
  \<open>Math.atan2\<close>, whose result the language leaves to the implementation; its
  coordinates, distances, velocities and angles are modelled as \<open>real\<close>: exact
  arithmetic, without rounding, NaN or infinities. The theorems about the analyzer
  compare such values with constants or relate fields of one result. The accuracies of
  the two challenges are computed with the four operations only, and what they are
  exactly is decided by rounding: they are modelled in double arithmetic (subsection
  \<open>Double arithmetic\<close>).

  The clock. \<open>Date.now()\<close> is an argument \<open>now\<close> of every function that reads it.
\<close>

subsection \<open>Library functions of JavaScript\<close>

text \<open>\<open>Math.round\<close> rounds to the nearest integer, a tie towards plus infinity.\<close>

definition Math_round :: "real \<Rightarrow> int" where
  "Math_round v = \<lfloor>v + 1 / 2\<rfloor>"

text \<open>\<open>Math.sign\<close> on a real number.\<close>

definition Math_sign :: "real \<Rightarrow> real" where
  "Math_sign v = (if v > 0 then 1 else if v < 0 then - 1 else 0)"

text \<open>\<open>Math.atan2(y, x)\<close>, the angle of the point \<open>(x, y)\<close> in \<open>(-pi, pi]\<close>; a zero
  produced by a subtraction is a positive zero, for which \<open>atan2(0, 0) = 0\<close> and
  \<open>atan2(0, x) = pi\<close> when \<open>x < 0\<close>.\<close>

definition Math_atan2 :: "real \<Rightarrow> real \<Rightarrow> real" where
  "Math_atan2 b a =
     (if a > 0 then arctan (b / a)
      else if a < 0 then (if b \<ge> 0 then arctan (b / a) + pi else arctan (b / a) - pi)
      else if b > 0 then pi / 2
      else if b < 0 then - (pi / 2)
      else 0)"

text \<open>\<open>v.toFixed(d)\<close> renders \<open>v\<close> with \<open>d\<close> decimals, choosing the larger neighbour on a
  tie; the model keeps the number that the rendered string denotes.\<close>

definition toFixed :: "nat \<Rightarrow> real \<Rightarrow> real" where
  "toFixed d v = real_of_int \<lfloor>v * 10 ^ d + 1 / 2\<rfloor> / 10 ^ d"

text \<open>\<open>v || 0\<close> on a number: zero (the only falsy real) is replaced by \<open>0\<close>.\<close>

definition or_zero :: "real \<Rightarrow> real" where
  "or_zero v = (if v = 0 then 0 else v)"

subsection \<open>The telemetry collector\<close>

record sample =
  pos_x :: real
  pos_y :: real
  pos_t :: int

record BehaviorAnalyzer =
  mousePositions :: "sample list"
  clickTimings :: "int list"
  tapTimings :: "int list"
  mouseVelocities :: "real list"
  hesitations :: nat
  microMovements :: nat
  lastMouseTime :: int
  lastMousePos :: "real \<times> real"
  startTime :: int

text \<open>The field initialisers of the class; \<open>startTime = Date.now()\<close>.\<close>

definition new_BehaviorAnalyzer :: "int \<Rightarrow> BehaviorAnalyzer" where
  "new_BehaviorAnalyzer now =
     \<lparr> mousePositions = [], clickTimings = [], tapTimings = [], mouseVelocities = [],
       hesitations = 0, microMovements = 0, lastMouseTime = 0, lastMousePos = (0, 0),
       startTime = now \<rparr>"

text \<open>\<open>Array.prototype.shift\<close>: removes the first element; nothing on an empty array.\<close>

definition shift :: "'a list \<Rightarrow> 'a list" where
  "shift xs = (case xs of [] \<Rightarrow> [] | _ # r \<Rightarrow> r)"

definition trackMouse :: "real \<Rightarrow> real \<Rightarrow> int \<Rightarrow> BehaviorAnalyzer \<Rightarrow> BehaviorAnalyzer" where
  "trackMouse x y now a =
     (let dt = now - lastMouseTime a in
      if dt < 30 then a
      else
        let dx = x - fst (lastMousePos a);
            dy = y - snd (lastMousePos a);
            dist = sqrt (dx * dx + dy * dy);
            velocity = (if dt > 0 then dist / real_of_int dt else 0);
            ps = mousePositions a @ [\<lparr> pos_x = x, pos_y = y, pos_t = now \<rparr>];
            vs = mouseVelocities a @ [velocity];
            full = (length ps > 150)
        in a \<lparr> mousePositions := (if full then shift ps else ps),
               mouseVelocities := (if full then shift vs else vs),
               microMovements := (if dist > 0 \<and> dist < 3 then microMovements a + 1
                                  else microMovements a),
               hesitations := (if dt > 200 \<and> dist > 5 then hesitations a + 1
                               else hesitations a),
               lastMouseTime := now,
               lastMousePos := (x, y) \<rparr>)"

definition trackClick :: "int \<Rightarrow> BehaviorAnalyzer \<Rightarrow> BehaviorAnalyzer" where
  "trackClick ts a = a \<lparr> clickTimings := clickTimings a @ [ts] \<rparr>"

definition trackTap :: "int \<Rightarrow> BehaviorAnalyzer \<Rightarrow> BehaviorAnalyzer" where
  "trackTap ts a = a \<lparr> tapTimings := tapTimings a @ [ts] \<rparr>"

text \<open>A pointer event is the pair of coordinates and the clock reading of the call; a
  sequence of calls of \<open>trackMouse\<close> is a fold over the events.\<close>

type_synonym pointer_event = "real \<times> real \<times> int"

fun trackAll :: "BehaviorAnalyzer \<Rightarrow> pointer_event list \<Rightarrow> BehaviorAnalyzer" where
  "trackAll a [] = a"
| "trackAll a ((x, y, now) # es) = trackAll (trackMouse x y now a) es"

subsection \<open>The scoring engine\<close>

text \<open>The three private methods read the fields of the analyzer; the arrays they build
  (\<open>iv\<close>, \<open>acc\<close>) are local.\<close>

definition turn :: "sample list \<Rightarrow> nat \<Rightarrow> real" where
  "turn ps i =
     (let p0 = ps ! (i - 2); p1 = ps ! (i - 1); p2 = ps ! i
      in \<bar>Math_atan2 (pos_y p2 - pos_y p1) (pos_x p2 - pos_x p1) -
          Math_atan2 (pos_y p1 - pos_y p0) (pos_x p1 - pos_x p0)\<bar>)"

definition computePathJitter :: "BehaviorAnalyzer \<Rightarrow> real" where
  "computePathJitter a =
     (let ps = mousePositions a in
      if length ps < 10 then 0
      else (\<Sum>i\<leftarrow>[2..<length ps]. turn ps i) / real (length ps - 2))"

definition computeTimingVariance :: "int list \<Rightarrow> real" where
  "computeTimingVariance t =
     (if length t < 3 then 0
      else
        let iv = map (\<lambda>i. real_of_int (t ! i - t ! (i - 1))) [1..<length t];
            m = (\<Sum>b\<leftarrow>iv. b) / real (length iv)
        in sqrt ((\<Sum>b\<leftarrow>iv. (b - m) ^ 2) / real (length iv)))"

definition computeVelocityNaturalness :: "BehaviorAnalyzer \<Rightarrow> real" where
  "computeVelocityNaturalness a =
     (let vs = mouseVelocities a in
      if length vs < 5 then 0
      else
        let acc = map (\<lambda>i. vs ! i - vs ! (i - 1)) [1..<length vs]
        in real (length (filter (\<lambda>i. i > 0 \<and> Math_sign (acc ! i) \<noteq> Math_sign (or_zero (acc ! (i - 1))))
                          [0..<length acc]))
           / real (length acc))"

datatype challenge = Rhythm | Precision

text \<open>\<open>s : Record<string, number>\<close> is an object whose keys keep their insertion order;
  \<open>Object.values\<close> lists the values in that order.\<close>

type_synonym scores = "(string \<times> int) list"

fun set_key :: "scores \<Rightarrow> string \<Rightarrow> int \<Rightarrow> scores" where
  "set_key [] k v = [(k, v)]"
| "set_key ((k', v') # r) k v = (if k' = k then (k, v) # r else (k', v') # set_key r k v)"

definition Object_values :: "scores \<Rightarrow> int list" where
  "Object_values s = map snd s"

definition score :: "scores \<Rightarrow> string \<Rightarrow> int option" where
  "score s k = map_of s k"

record details =
  d_mouseEvents :: nat
  d_microMovements :: nat
  d_hesitations :: nat
  d_pathJitter :: real
  d_timingVariance :: real
  d_velocityNaturalness :: real

record VerificationResult =
  scores :: scores
  total :: int
  isHuman :: bool
  confidence :: int
  totalTime :: int
  details :: details

text \<open>\<open>analyze\<close> is a method of the analyzer: the model returns the result together with
  the analyzer as the call leaves it.\<close>

definition analyze ::
  "challenge \<Rightarrow> real \<Rightarrow> int \<Rightarrow> BehaviorAnalyzer \<Rightarrow> VerificationResult \<times> BehaviorAnalyzer" where
  "analyze mode accuracy now a =
     (let jitter = computePathJitter a;
          s1 = set_key [] ''pathNaturalness''
                 (if jitter > 0.05 \<and> jitter < 1.5 then 25 else if jitter > 0.02 then 15 else 5);
          timings = (if mode = Rhythm then tapTimings a else clickTimings a);
          variance = computeTimingVariance timings;
          s2 = set_key s1 ''timingHumanness''
                 (if variance > 15 \<and> variance < 300 then 25 else if variance > 5 then 15 else 0);
          tr = (if length (mousePositions a) > 0
                then real (microMovements a) / real (length (mousePositions a)) else 0);
          s3 = set_key s2 ''bioSignal''
                 (if tr > 0.02 \<and> tr < 0.5 then 15 else if tr > 0.01 then 8 else 0);
          vn = computeVelocityNaturalness a;
          s4 = set_key s3 ''velocityProfile''
                 (if vn > 0.15 then 15 else if vn > 0.05 then 8 else 2);
          s = set_key s4 ''taskAccuracy'' (Math_round (accuracy * 20));
          total = foldl (+) 0 (Object_values s)
      in (\<lparr> scores = s,
            total = total,
            isHuman = (total \<ge> 55),
            confidence = min 99 (Math_round (real_of_int total * 1.1)),
            totalTime = now - startTime a,
            details = \<lparr> d_mouseEvents = length (mousePositions a),
                        d_microMovements = microMovements a,
                        d_hesitations = hesitations a,
                        d_pathJitter = toFixed 4 jitter,
                        d_timingVariance = toFixed 1 variance,
                        d_velocityNaturalness = toFixed 3 vn \<rparr> \<rparr>,
          a))"

subsection \<open>Double arithmetic\<close>

text \<open>
  A finite double is modelled as the real number it denotes. \<open>to_double q\<close> is the double
  nearest to \<open>q\<close>, a tie going to the even significand: with \<open>e = ilog2 \<bar>q\<bar>\<close>, the
  integer part of the binary logarithm, the doubles around \<open>q\<close> are the multiples of
  \<open>2 ^ (e - 52)\<close> (of \<open>2 ^ (- 1074)\<close> in the subnormal range). Every arithmetic operation
  is the exact operation followed by \<open>to_double\<close>; a decimal literal of the source is
  \<open>to_double\<close> of its value; an integer below \<open>2 ^ 53\<close> is a double as it is.
  Overflow does not arise for the values below and is not modelled.
\<close>

type_synonym double = real

definition ilog2 :: "real \<Rightarrow> int" where
  "ilog2 q = (if 1 \<le> q then int (floorlog 2 (nat \<lfloor>q\<rfloor>)) - 1
              else - int (floorlog 2 (nat (\<lceil>1 / q\<rceil> - 1))))"

definition pow2 :: "int \<Rightarrow> real" where
  "pow2 e = (if 0 \<le> e then 2 ^ nat e else 1 / 2 ^ nat (- e))"

definition round_even :: "real \<Rightarrow> int" where
  "round_even q =
     (let f = \<lfloor>q\<rfloor>; r = q - of_int f
      in if r < 1 / 2 then f else if 1 / 2 < r then f + 1 else if even f then f else f + 1)"

definition to_double :: "real \<Rightarrow> double" where
  "to_double q =
     (if q = 0 then 0
      else
        let u = pow2 (max (ilog2 \<bar>q\<bar>) (- 1022) - 52)
        in sgn q * of_int (round_even (\<bar>q\<bar> / u)) * u)"

definition d_add :: "double \<Rightarrow> double \<Rightarrow> double" where
  "d_add a b = to_double (a + b)"

definition d_sub :: "double \<Rightarrow> double \<Rightarrow> double" where
  "d_sub a b = to_double (a - b)"

definition d_mul :: "double \<Rightarrow> double \<Rightarrow> double" where
  "d_mul a b = to_double (a * b)"

definition d_div :: "double \<Rightarrow> double \<Rightarrow> double" where
  "d_div a b = to_double (a / b)"

subsection \<open>The rhythm challenge\<close>

text \<open>A value passed to \<open>showResult\<close>: a number, or NaN where the source divides zero by
  zero.\<close>

datatype number = Num double | NaN

record pattern =
  p_name :: string
  beats :: "int list"

definition RHYTHM_PATTERNS :: "pattern list" where
  "RHYTHM_PATTERNS =
     [\<lparr> p_name = ''4/4 Basic'', beats = [0, 600, 1200, 1800, 2400, 3000, 3600, 4200] \<rparr>,
      \<lparr> p_name = ''Syncopated'', beats = [0, 545, 1090, 1450, 2180, 2725, 3270, 3630, 4360] \<rparr>,
      \<lparr> p_name = ''Swing'', beats = [0, 632, 948, 1580, 2212, 2528, 3160, 3792, 4108] \<rparr>]"

text \<open>The inner loop of \<open>evaluateRhythm\<close>: \<open>min\<close> starts as \<open>Infinity\<close> (\<open>None\<close>) and is
  replaced by every smaller distance.\<close>

definition nearest_step :: "int \<Rightarrow> int option \<Rightarrow> int \<Rightarrow> int option" where
  "nearest_step t mn b =
     (let e = \<bar>t - b\<bar>
      in if (case mn of None \<Rightarrow> True | Some m \<Rightarrow> e < m) then Some e else mn)"

definition nearest :: "int list \<Rightarrow> int \<Rightarrow> int option" where
  "nearest bs t = foldl (nearest_step t) None bs"

text \<open>The outer loop: the state is \<open>(totalErr, matched)\<close>; \<open>Infinity < tol\<close> is false.\<close>

definition tap_step :: "int list \<Rightarrow> int \<times> nat \<Rightarrow> int \<Rightarrow> int \<times> nat" where
  "tap_step bs st t =
     (case st of (totalErr, matched) \<Rightarrow>
        (case nearest bs t of
           None \<Rightarrow> (totalErr, matched)
         | Some mn \<Rightarrow> if mn < 250 then (totalErr + mn, matched + 1) else (totalErr, matched)))"

text \<open>\<open>evaluateRhythm\<close> returns without a call when there is no current pattern, and
  otherwise calls \<open>showResult("rhythm", acc * 0.6 + ts * 0.4)\<close>; the model returns the
  arguments of that call. With no beat at all no tap is matched and
  \<open>matched / beats.length\<close> is \<open>0 / 0\<close>, that is NaN, and so is the accuracy.\<close>

definition evaluateRhythm :: "pattern option \<Rightarrow> int list \<Rightarrow> (challenge \<times> number) option" where
  "evaluateRhythm currentPattern taps =
     (case currentPattern of
        None \<Rightarrow> None
      | Some p \<Rightarrow>
          (case foldl (tap_step (beats p)) (0, 0) taps of (totalErr, matched) \<Rightarrow>
             if length (beats p) = 0 then Some (Rhythm, NaN)
             else
               let acc = d_div (real matched) (real (length (beats p)));
                   ts = (if matched > 0
                         then max 0 (d_sub 1 (d_div (d_div (real_of_int totalErr) (real matched)) 250))
                         else 0)
               in Some (Rhythm, Num (d_add (d_mul acc (to_double (6 / 10)))
                                           (d_mul ts (to_double (4 / 10)))))))"

subsection \<open>The component RhythmCaptcha\<close>

definition CIRCLE_POSITIONS :: "(int \<times> int) list" where
  "CIRCLE_POSITIONS = [(50, 35), (25, 60), (75, 50), (40, 75), (60, 28)]"

definition TOTAL_CIRCLES :: nat where
  "TOTAL_CIRCLES = 5"

datatype phase = Idle | Select | Listen | Play | Target | Checking | Result

record circle =
  c_id :: int
  c_x :: int
  c_y :: int
  c_startTime :: int
  c_duration :: int
  c_size :: int

record circleResult =
  hit :: bool
  timing :: double

text \<open>The state of the component: its \<open>useState\<close> cells and the analyzer held by
  \<open>analyzerRef\<close>. \<open>is_checking\<close> is the cell \<open>checking\<close>. \<open>onResult_calls\<close> is not a cell
  of the source: it records the arguments of the calls of the prop \<open>onResult\<close>, in order.\<close>

record RhythmCaptcha =
  phase :: phase
  mode :: "challenge option"
  result :: "VerificationResult option"
  hoverCheck :: bool
  currentPattern :: "pattern option"
  beatIndex :: int
  userTaps :: "int list"
  activeCircle :: "circle option"
  circleResults :: "circleResult list"
  circlePhase :: nat
  clickedThisRound :: bool
  is_checking :: bool
  hasReported :: bool
  analyzerRef :: BehaviorAnalyzer
  onResult_calls :: "bool list"

text \<open>The state at the first render.\<close>

definition mount :: "int \<Rightarrow> RhythmCaptcha" where
  "mount now =
     \<lparr> phase = Idle, mode = None, result = None, hoverCheck = False, currentPattern = None,
       beatIndex = - 1, userTaps = [], activeCircle = None, circleResults = [],
       circlePhase = 0, clickedThisRound = False, is_checking = False, hasReported = False,
       analyzerRef = new_BehaviorAnalyzer now, onResult_calls = [] \<rparr>"

text \<open>The effect that reports the verdict; \<open>given\<close> tells whether the optional prop
  \<open>onResult\<close> was passed. An effect runs after a render with the state of that render,
  and the state updates it requests are in place at the next render.\<close>

definition reportEffect :: "bool \<Rightarrow> RhythmCaptcha \<Rightarrow> RhythmCaptcha" where
  "reportEffect given c =
     (case result c of
        None \<Rightarrow> c
      | Some r \<Rightarrow>
          if phase c = Result \<and> \<not> hasReported c
          then c \<lparr> onResult_calls := (if given then onResult_calls c @ [isHuman r]
                                        else onResult_calls c),
                   hasReported := True \<rparr>
          else c)"

text \<open>\<open>showResult\<close> sets the phase at once and scores the session in a timer callback
  2200 ms later (\<open>showResult_timeout\<close>).\<close>

definition showResult :: "RhythmCaptcha \<Rightarrow> RhythmCaptcha" where
  "showResult c = c \<lparr> is_checking := True, phase := Checking \<rparr>"

definition showResult_timeout :: "challenge \<Rightarrow> real \<Rightarrow> int \<Rightarrow> RhythmCaptcha \<Rightarrow> RhythmCaptcha" where
  "showResult_timeout m acc now c =
     (case analyze m acc now (analyzerRef c) of (analysis, a) \<Rightarrow>
        c \<lparr> analyzerRef := a, result := Some analysis, is_checking := False, phase := Result \<rparr>)"

definition reset :: "int \<Rightarrow> RhythmCaptcha \<Rightarrow> RhythmCaptcha" where
  "reset now c =
     c \<lparr> analyzerRef := new_BehaviorAnalyzer now, phase := Idle, mode := None, result := None,
         hoverCheck := False, beatIndex := - 1, currentPattern := None, userTaps := [],
         activeCircle := None, circleResults := [], circlePhase := 0,
         clickedThisRound := False, is_checking := False, hasReported := False \<rparr>"

text \<open>What can happen to a session from its first result on: a render (each render is
  taken to run the effect, also when no dependency changed), or the callback of one more
  pending \<open>showResult\<close> timer.\<close>

datatype observation = Render | ResultTimer challenge real int

fun observe :: "bool \<Rightarrow> RhythmCaptcha \<Rightarrow> observation list \<Rightarrow> RhythmCaptcha" where
  "observe given c [] = c"
| "observe given c (Render # os) = observe given (reportEffect given c) os"
| "observe given c (ResultTimer m acc now # os) = observe given (showResult_timeout m acc now c) os"

subsection \<open>Precision rings\<close>

text \<open>\<open>spawnCircle\<close> shows ring \<open>i\<close>; its expiry timer is \<open>circle_timeout\<close>.\<close>

definition spawnCircle :: "nat \<Rightarrow> int \<Rightarrow> RhythmCaptcha \<Rightarrow> RhythmCaptcha" where
  "spawnCircle i now c =
     (if i \<ge> TOTAL_CIRCLES then c
      else c \<lparr> activeCircle :=
                 Some \<lparr> c_id = now,
                        c_x = fst (CIRCLE_POSITIONS ! i), c_y = snd (CIRCLE_POSITIONS ! i),
                        c_startTime = now,
                        c_duration = 2200 - int i * 150,
                        c_size = 90 - int i * 6 \<rparr>,
               clickedThisRound := False,
               circlePhase := i \<rparr>)"

text \<open>\<open>startPrecision\<close> enters the precision challenge and shows the first ring.\<close>

definition startPrecision :: "int \<Rightarrow> RhythmCaptcha \<Rightarrow> RhythmCaptcha" where
  "startPrecision now c =
     spawnCircle 0 now
       (c \<lparr> mode := Some Precision, phase := Target, circleResults := [], circlePhase := 0,
            clickedThisRound := False \<rparr>)"

definition circle_timeout :: "RhythmCaptcha \<Rightarrow> RhythmCaptcha" where
  "circle_timeout c =
     c \<lparr> circleResults := circleResults c @ [\<lparr> hit = False, timing = 1 \<rparr>],
         activeCircle := None \<rparr>"

text \<open>The accuracy computed by \<open>handleCircleClick\<close> from the progress, in double
  arithmetic: \<open>1 - Math.min(1, Math.abs(progress - 0.7) / 0.4)\<close>.\<close>

definition clickAccuracy :: "double \<Rightarrow> double" where
  "clickAccuracy progress =
     d_sub 1 (min 1 (d_div \<bar>d_sub progress (to_double (7 / 10))\<bar> (to_double (4 / 10))))"

text \<open>\<open>handleCircleClick\<close>; \<open>now\<close> and \<open>now'\<close> are its two readings of the clock. The
  elapsed time and the duration are integers, which are doubles as they are.\<close>

definition handleCircleClick :: "int \<Rightarrow> int \<Rightarrow> RhythmCaptcha \<Rightarrow> RhythmCaptcha" where
  "handleCircleClick now now' c =
     (case activeCircle c of
        None \<Rightarrow> c
      | Some ac \<Rightarrow>
          if phase c \<noteq> Target \<or> clickedThisRound c then c
          else
            let progress = d_div (of_int (now - c_startTime ac)) (of_int (c_duration ac));
                accuracy = clickAccuracy progress
            in c \<lparr> clickedThisRound := True,
                     analyzerRef := trackClick now' (analyzerRef c),
                     circleResults := circleResults c @
                       [\<lparr> hit = (accuracy > to_double (3 / 10)), timing = accuracy \<rparr>],
                     activeCircle := None \<rparr>)"

section \<open>Definitions used to state the properties\<close>

text \<open>The four threshold expressions of \<open>analyze\<close>, the ratio \<open>tr\<close> and the choice of the
  timing series, under names.\<close>

definition pathScore :: "real \<Rightarrow> int" where
  "pathScore jitter = (if jitter > 0.05 \<and> jitter < 1.5 then 25 else if jitter > 0.02 then 15 else 5)"

definition timingScore :: "real \<Rightarrow> int" where
  "timingScore variance = (if variance > 15 \<and> variance < 300 then 25 else if variance > 5 then 15 else 0)"

definition bioScore :: "real \<Rightarrow> int" where
  "bioScore tr = (if tr > 0.02 \<and> tr < 0.5 then 15 else if tr > 0.01 then 8 else 0)"

definition velocityScore :: "real \<Rightarrow> int" where
  "velocityScore vn = (if vn > 0.15 then 15 else if vn > 0.05 then 8 else 2)"

definition tremorRatio :: "BehaviorAnalyzer \<Rightarrow> real" where
  "tremorRatio a = (if length (mousePositions a) > 0
                    then real (microMovements a) / real (length (mousePositions a)) else 0)"

definition timingsOf :: "challenge \<Rightarrow> BehaviorAnalyzer \<Rightarrow> int list" where
  "timingsOf md a = (if md = Rhythm then tapTimings a else clickTimings a)"

text \<open>The sign-change fraction in the words of the specification: the number of adjacent
  pairs of velocity deltas with different signs, over the number of deltas.\<close>

fun deltas :: "real list \<Rightarrow> real list" where
  "deltas (u # v # r) = (v - u) # deltas (v # r)"
| "deltas _ = []"

fun signChanges :: "real list \<Rightarrow> nat" where
  "signChanges (u # v # r) = (if Math_sign v \<noteq> Math_sign u then 1 else 0) + signChanges (v # r)"
| "signChanges _ = 0"

definition signChangeFraction :: "real list \<Rightarrow> real" where
  "signChangeFraction vs = real (signChanges (deltas vs)) / real (length (deltas vs))"

text \<open>An analyzer with five samples, the state after the five pointer events
  (0, 0), (30, 0), (31.5, 0), (61.5, 0), (61.5, 0) at the times 1000, 1030, ..., 1120.\<close>

definition fewSamples :: BehaviorAnalyzer where
  "fewSamples =
     \<lparr> mousePositions =
         [\<lparr> pos_x = 0, pos_y = 0, pos_t = 1000 \<rparr>,
          \<lparr> pos_x = 30, pos_y = 0, pos_t = 1030 \<rparr>,
          \<lparr> pos_x = 31.5, pos_y = 0, pos_t = 1060 \<rparr>,
          \<lparr> pos_x = 61.5, pos_y = 0, pos_t = 1090 \<rparr>,
          \<lparr> pos_x = 61.5, pos_y = 0, pos_t = 1120 \<rparr>],
       clickTimings = [], tapTimings = [],
       mouseVelocities = [0, 1, 0.05, 1, 0],
       hesitations = 0, microMovements = 1, lastMouseTime = 1120, lastMousePos = (61.5, 0),
       startTime = 900 \<rparr>"

text \<open>The accepted samples of a sequence of pointer events: those that come at least
  30 ms after the sample accepted before them (\<open>lastT\<close> is the time of that sample).\<close>

fun accepted_spec :: "int \<Rightarrow> pointer_event list \<Rightarrow> sample list" where
  "accepted_spec lastT [] = []"
| "accepted_spec lastT ((x, y, now) # es) =
     (if now - lastT < 30 then accepted_spec lastT es
      else \<lparr> pos_x = x, pos_y = y, pos_t = now \<rparr> # accepted_spec now es)"

text \<open>The distance \<open>dist\<close> of \<open>trackMouse\<close>, from the point \<open>p\<close> to \<open>(x, y)\<close>.\<close>

definition displacement :: "real \<times> real \<Rightarrow> real \<Rightarrow> real \<Rightarrow> real" where
  "displacement p x y = sqrt ((x - fst p) * (x - fst p) + (y - snd p) * (y - snd p))"

text \<open>The last \<open>k\<close> elements of a list.\<close>

text \<open>The velocities of a list of accepted samples: each sample's distance from the one
  before it (from the baseline \<open>(p, t)\<close> for the first) over the time between them.\<close>

fun velocities_spec :: "(real \<times> real) \<times> int \<Rightarrow> sample list \<Rightarrow> real list" where
  "velocities_spec (p, t) [] = []"
| "velocities_spec (p, t) (s # r) =
     displacement p (pos_x s) (pos_y s) / real_of_int (pos_t s - t)
       # velocities_spec ((pos_x s, pos_y s), pos_t s) r"

definition lastn :: "nat \<Rightarrow> 'a list \<Rightarrow> 'a list" where
  "lastn k xs = drop (length xs - k) xs"

text \<open>The baseline of the next call of \<open>trackMouse\<close>: position and time of the last
  accepted sample.\<close>

definition baseline :: "BehaviorAnalyzer \<Rightarrow> (real \<times> real) \<times> int" where
  "baseline a = (lastMousePos a, lastMouseTime a)"

text \<open>\<open>n\<close> pointer events at the origin, 30 ms apart; and the analyzer after a first event
  at (10, 0) at time 1000.\<close>

definition spaced_events :: "nat \<Rightarrow> pointer_event list" where
  "spaced_events n = map (\<lambda>i. (0, 0, 30 * int i)) [1..<Suc n]"

definition firstAccepted :: BehaviorAnalyzer where
  "firstAccepted = trackMouse 10 0 1000 (new_BehaviorAnalyzer 900)"

text \<open>The rhythm evaluation in the words of the specification: the distance of a tap to
  its nearest beat, the taps that match, and the timing quality
  \<open>max(0, 1 - meanMatchedError / 250)\<close>, 0 without a match.\<close>

definition nearest_dist :: "int list \<Rightarrow> int \<Rightarrow> int" where
  "nearest_dist bs t = Min ((\<lambda>b. \<bar>t - b\<bar>) ` set bs)"

definition matched_taps :: "int list \<Rightarrow> int list \<Rightarrow> int list" where
  "matched_taps bs taps = filter (\<lambda>t. nearest_dist bs t < 250) taps"

definition timingQuality :: "int list \<Rightarrow> int list \<Rightarrow> double" where
  "timingQuality bs taps =
     (if matched_taps bs taps = [] then 0
      else max 0 (d_sub 1 (d_div (d_div (real_of_int (\<Sum>t\<leftarrow>matched_taps bs taps. nearest_dist bs t))
                                        (real (length (matched_taps bs taps)))) 250)))"

text \<open>The pattern of the example of the specification.\<close>

definition examplePattern :: pattern where
  "examplePattern = \<lparr> p_name = ''example'', beats = [0, 600, 1200] \<rparr>"

section \<open>Properties\<close>

subsection \<open>The scoring engine\<close>

lemma set_key_chain:
  assumes "distinct [k1, k2, k3, k4, k5]"
  shows "set_key (set_key (set_key (set_key (set_key [] k1 v1) k2 v2) k3 v3) k4 v4) k5 v5 =
     [(k1, v1), (k2, v2), (k3, v3), (k4, v4), (k5, v5)]"
  using assms by simp

lemma score_keys_distinct:
  "distinct [''pathNaturalness'', ''timingHumanness'', ''bioSignal'', ''velocityProfile'', ''taskAccuracy'']"
  by simp

lemma analyze_scores:
  "scores (fst (analyze md accuracy now a)) =
     [(''pathNaturalness'', pathScore (computePathJitter a)),
      (''timingHumanness'', timingScore (computeTimingVariance (timingsOf md a))),
      (''bioSignal'', bioScore (tremorRatio a)),
      (''velocityProfile'', velocityScore (computeVelocityNaturalness a)),
      (''taskAccuracy'', Math_round (accuracy * 20))]"
  unfolding analyze_def Let_def fst_conv VerificationResult.simps
    pathScore_def timingScore_def bioScore_def velocityScore_def tremorRatio_def timingsOf_def
  by (rule set_key_chain [OF score_keys_distinct])





lemma analyze_snd: "snd (analyze md accuracy now a) = a"
  unfolding analyze_def Let_def snd_conv by (rule refl)


lemma score_lookup:
  "score (scores (fst (analyze md accuracy now a))) ''pathNaturalness'' = Some (pathScore (computePathJitter a))"
  "score (scores (fst (analyze md accuracy now a))) ''timingHumanness'' = Some (timingScore (computeTimingVariance (timingsOf md a)))"
  "score (scores (fst (analyze md accuracy now a))) ''bioSignal'' = Some (bioScore (tremorRatio a))"
  "score (scores (fst (analyze md accuracy now a))) ''velocityProfile'' = Some (velocityScore (computeVelocityNaturalness a))"
  "score (scores (fst (analyze md accuracy now a))) ''taskAccuracy'' = Some (Math_round (accuracy * 20))"
  unfolding analyze_scores score_def by simp_all






lemma jitter_few: "length (mousePositions a) < 10 \<Longrightarrow> computePathJitter a = 0"
  by (simp add: computePathJitter_def)

lemma vn_few: "length (mouseVelocities a) < 5 \<Longrightarrow> computeVelocityNaturalness a = 0"
  by (simp add: computeVelocityNaturalness_def)

lemma length_deltas: "length (deltas vs) = length vs - 1"
  by (induction vs rule: deltas.induct) simp_all

lemma nth_deltas: "i < length vs - 1 \<Longrightarrow> deltas vs ! i = vs ! Suc i - vs ! i"
proof (induction vs arbitrary: i rule: deltas.induct)
  case (1 u v r)
  then show ?case by (cases i) simp_all
qed simp_all

lemma deltas_index: "map (\<lambda>i. vs ! i - vs ! (i - 1)) [1..<length vs] = deltas vs"
  by (rule nth_equalityI) (simp_all add: length_deltas nth_deltas)

lemma signChanges_snoc:
  "signChanges (xs @ [u, v]) = signChanges (xs @ [u]) + (if Math_sign v \<noteq> Math_sign u then 1 else 0)"
  by (induction xs rule: signChanges.induct) simp_all

lemma signChanges_index:
  "length (filter (\<lambda>i. i > 0 \<and> Math_sign (xs ! i) \<noteq> Math_sign (or_zero (xs ! (i - 1)))) [0..<length xs])
     = signChanges xs"
proof (induction xs rule: rev_induct)
  case Nil
  show ?case by simp
next
  case (snoc v xs)
  show ?case
  proof (cases xs rule: rev_cases)
    case Nil
    then show ?thesis by simp
  next
    case (snoc ys u)
    have eq: "filter (\<lambda>i. i > 0 \<and> Math_sign ((xs @ [v]) ! i) \<noteq> Math_sign (or_zero ((xs @ [v]) ! (i - 1)))) [0..<length xs]
            = filter (\<lambda>i. i > 0 \<and> Math_sign (xs ! i) \<noteq> Math_sign (or_zero (xs ! (i - 1)))) [0..<length xs]"
      by (rule filter_cong) (auto simp: nth_append)
    have lastp: "(xs @ [v]) ! (length xs - 1) = u"
      using snoc by (simp add: nth_append)
    have "signChanges (xs @ [v]) = signChanges xs + (if Math_sign v \<noteq> Math_sign u then 1 else 0)"
      using snoc signChanges_snoc [of ys u v] by simp
    moreover have "length xs > 0" using snoc by simp
    ultimately show ?thesis
      using snoc.IH eq lastp by (simp add: or_zero_def)
  qed
qed

lemma vn_fraction:
  "5 \<le> length (mouseVelocities a) \<Longrightarrow>
     computeVelocityNaturalness a = signChangeFraction (mouseVelocities a)"
  unfolding computeVelocityNaturalness_def Let_def signChangeFraction_def
    deltas_index signChanges_index
  by simp

lemma fewSamples_fields:
  "length (mousePositions fewSamples) = 5"
  "mouseVelocities fewSamples = [0, 1, 0.05, 1, 0]"
  "microMovements fewSamples = 1"
  "clickTimings fewSamples = []"
  "tapTimings fewSamples = []"
  by (simp_all add: fewSamples_def)



lemma fresh_fields:
  "mousePositions (new_BehaviorAnalyzer s) = []"
  "mouseVelocities (new_BehaviorAnalyzer s) = []"
  "lastMouseTime (new_BehaviorAnalyzer s) = 0"
  "lastMousePos (new_BehaviorAnalyzer s) = (0, 0)"
  "hesitations (new_BehaviorAnalyzer s) = 0"
  "microMovements (new_BehaviorAnalyzer s) = 0"
  "startTime (new_BehaviorAnalyzer s) = s"
  by (simp_all add: new_BehaviorAnalyzer_def)

text \<open>
  Claim C1, as amended. For every analyzer that holds fewer than 10 position samples, and
  whatever the mode, the accuracy, the clock and the other fields are, the sub-score
  \<open>pathNaturalness\<close> of \<open>analyze\<close> is 5: the jitter is 0 there, and the jitter 0 falls
  into the last branch of the threshold expression, whose value is 5 and not 0.
\<close>

theorem pathNaturalness_few_samples:
  "length (mousePositions a) < 10 \<Longrightarrow>
     score (scores (fst (analyze md accuracy now a))) ''pathNaturalness'' = Some 5"
  by (simp add: score_lookup(1) jitter_few pathScore_def)

text \<open>Witness of C1: the fresh analyzer has no position sample and scores 5.\<close>

theorem pathNaturalness_few_samples_witness:
  "length (mousePositions (new_BehaviorAnalyzer 0)) < 10 \<and>
   score (scores (fst (analyze Rhythm 1 2500 (new_BehaviorAnalyzer 0)))) ''pathNaturalness'' = Some 5"
proof -
  have h: "length (mousePositions (new_BehaviorAnalyzer 0)) < 10"
    by (simp add: fresh_fields)
  from pathNaturalness_few_samples [OF h] h show ?thesis by blast
qed

text \<open>Counterexample to C1 as stated: the fresh analyzer has fewer than 10 position
  samples and its \<open>pathNaturalness\<close> is not 0.\<close>

theorem pathNaturalness_zero_counterexample:
  "length (mousePositions (new_BehaviorAnalyzer 0)) < 10 \<and>
   score (scores (fst (analyze Rhythm 1 2500 (new_BehaviorAnalyzer 0)))) ''pathNaturalness'' \<noteq> Some 0"
  by (simp add: score_lookup(1) jitter_few fresh_fields pathScore_def)

text \<open>
  Claim C2, as amended. With fewer than 5 velocity samples the sub-score
  \<open>velocityProfile\<close> is 2 (not 0); with 5 or more it is 15 if the sign-change fraction of
  the velocity deltas exceeds 0.15, 8 if it exceeds 0.05, and 2 otherwise. The fraction is
  the number of adjacent pairs of deltas with different signs, divided by the number of
  deltas.
\<close>

theorem velocityProfile_value:
  "score (scores (fst (analyze md accuracy now a))) ''velocityProfile'' =
     Some (if length (mouseVelocities a) < 5 then 2
           else if signChangeFraction (mouseVelocities a) > 0.15 then 15
           else if signChangeFraction (mouseVelocities a) > 0.05 then 8
           else 2)"
proof (cases "length (mouseVelocities a) < 5")
  case True
  then show ?thesis by (simp add: score_lookup(4) vn_few velocityScore_def)
next
  case False
  then have "computeVelocityNaturalness a = signChangeFraction (mouseVelocities a)"
    by (simp add: vn_fraction)
  with False show ?thesis by (simp add: score_lookup(4) velocityScore_def)
qed

text \<open>Witness of C2: the fresh analyzer (no velocity sample) scores 2; five velocity
  samples with sign-change fraction 3/4 score 15.\<close>

theorem velocityProfile_value_witness:
  "score (scores (fst (analyze Rhythm 1 2500 (new_BehaviorAnalyzer 0)))) ''velocityProfile'' = Some 2 \<and>
   signChangeFraction (mouseVelocities fewSamples) = 3 / 4 \<and>
   score (scores (fst (analyze Rhythm 1 2500 fewSamples))) ''velocityProfile'' = Some 15"
proof -
  have f: "signChangeFraction (mouseVelocities fewSamples) = 3 / 4"
    by (simp add: fewSamples_fields signChangeFraction_def Math_sign_def)
  show ?thesis
    using velocityProfile_value [of Rhythm 1 2500 "new_BehaviorAnalyzer 0"]
      velocityProfile_value [of Rhythm 1 2500 fewSamples] f
    by (simp add: fresh_fields fewSamples_fields)
qed

text \<open>Counterexample to C2 as stated: the fresh analyzer has fewer than 5 velocity
  samples and its \<open>velocityProfile\<close> is not 0.\<close>

theorem velocityProfile_zero_counterexample:
  "length (mouseVelocities (new_BehaviorAnalyzer 0)) < 5 \<and>
   score (scores (fst (analyze Rhythm 1 2500 (new_BehaviorAnalyzer 0)))) ''velocityProfile'' \<noteq> Some 0"
  by (simp add: score_lookup(4) vn_few fresh_fields velocityScore_def)






subsection \<open>The telemetry collector\<close>

lemma shift_drop: "shift xs = drop 1 xs"
  by (cases xs) (simp_all add: shift_def)

lemma trackMouse_dropped: "now - lastMouseTime a < 30 \<Longrightarrow> trackMouse x y now a = a"
  by (simp add: trackMouse_def)

lemma trackMouse_accepted:
  assumes "\<not> now - lastMouseTime a < 30"
  shows "mousePositions (trackMouse x y now a) =
           (if 150 \<le> length (mousePositions a)
            then drop 1 (mousePositions a @ [\<lparr> pos_x = x, pos_y = y, pos_t = now \<rparr>])
            else mousePositions a @ [\<lparr> pos_x = x, pos_y = y, pos_t = now \<rparr>])"
    and "mouseVelocities (trackMouse x y now a) =
           (if 150 \<le> length (mousePositions a)
            then drop 1 (mouseVelocities a @
                   [displacement (lastMousePos a) x y / real_of_int (now - lastMouseTime a)])
            else mouseVelocities a @
                   [displacement (lastMousePos a) x y / real_of_int (now - lastMouseTime a)])"
    and "lastMouseTime (trackMouse x y now a) = now"
    and "lastMousePos (trackMouse x y now a) = (x, y)"
    and "microMovements (trackMouse x y now a) =
           (if 0 < displacement (lastMousePos a) x y \<and> displacement (lastMousePos a) x y < 3
            then microMovements a + 1 else microMovements a)"
    and "hesitations (trackMouse x y now a) =
           (if now - lastMouseTime a > 200 \<and> displacement (lastMousePos a) x y > 5
            then hesitations a + 1 else hesitations a)"
    and "clickTimings (trackMouse x y now a) = clickTimings a"
    and "tapTimings (trackMouse x y now a) = tapTimings a"
    and "startTime (trackMouse x y now a) = startTime a"
  using assms by (simp_all add: trackMouse_def Let_def shift_drop displacement_def)

lemma sqrt_values: "sqrt 25 = 5" "sqrt 100 = 10" "sqrt 900 = 30" "sqrt (9 / 4) = 3 / 2"
  using real_sqrt_abs [of 5] real_sqrt_abs [of 10] real_sqrt_abs [of 30]
    real_sqrt_abs [of "3 / 2"]
  by (simp_all add: power2_eq_square)

lemma fewSamples_reachable:
  "trackAll (new_BehaviorAnalyzer 900)
     [(0, 0, 1000), (30, 0, 1030), (31.5, 0, 1060), (61.5, 0, 1090), (61.5, 0, 1120)] = fewSamples"
  by (simp add: trackMouse_def new_BehaviorAnalyzer_def fewSamples_def Let_def shift_def
      sqrt_values)

lemma lastn_lastn_append: "lastn k (lastn k xs @ ys) = lastn k (xs @ ys)"
  by (cases "length xs \<le> k") (simp_all add: lastn_def add.commute)

lemma lastn_snoc_step:
  "length ps \<le> 150 \<Longrightarrow>
     (if 150 \<le> length ps then drop 1 (ps @ [s]) else ps @ [s]) = lastn 150 (ps @ [s])"
  by (simp add: lastn_def)

lemma length_lastn: "length (lastn k xs) \<le> k"
  by (simp add: lastn_def)

lemma lastn_id: "length xs \<le> k \<Longrightarrow> lastn k xs = xs"
  by (simp add: lastn_def)

lemma window_positions:
  "length (mousePositions a) \<le> 150 \<Longrightarrow>
     mousePositions (trackAll a evs) =
       lastn 150 (mousePositions a @ accepted_spec (lastMouseTime a) evs)"
proof (induction evs arbitrary: a)
  case Nil
  then show ?case by (simp add: lastn_id)
next
  case (Cons e es)
  obtain x y now where e: "e = (x, y, now)" by (cases e)
  show ?case
  proof (cases "now - lastMouseTime a < 30")
    case True
    with Cons show ?thesis by (simp add: e trackMouse_dropped)
  next
    case False
    let ?s = "\<lparr> pos_x = x, pos_y = y, pos_t = now \<rparr>"
    let ?a = "trackMouse x y now a"
    have ps: "mousePositions ?a = lastn 150 (mousePositions a @ [?s])"
      using trackMouse_accepted(1) [OF False] lastn_snoc_step [OF Cons.prems] by simp
    then have "length (mousePositions ?a) \<le> 150" by (simp add: length_lastn)
    from Cons.IH [OF this]
    have "mousePositions (trackAll ?a es) =
            lastn 150 (lastn 150 (mousePositions a @ [?s]) @ accepted_spec now es)"
      by (simp add: ps trackMouse_accepted(3) [OF False])
    also have "\<dots> = lastn 150 ((mousePositions a @ [?s]) @ accepted_spec now es)"
      by (rule lastn_lastn_append)
    finally show ?thesis using False by (simp add: e)
  qed
qed

lemma window_lengths:
  "length (mouseVelocities a) = length (mousePositions a) \<Longrightarrow>
     length (mouseVelocities (trackAll a evs)) = length (mousePositions (trackAll a evs))"
proof (induction evs arbitrary: a)
  case Nil
  then show ?case by simp
next
  case (Cons e es)
  obtain x y now where e: "e = (x, y, now)" by (cases e)
  have "length (mouseVelocities (trackMouse x y now a)) =
        length (mousePositions (trackMouse x y now a))"
  proof (cases "now - lastMouseTime a < 30")
    case True
    with Cons.prems show ?thesis by (simp add: trackMouse_dropped)
  next
    case False
    show ?thesis
      unfolding trackMouse_accepted(1,2) [OF False] using Cons.prems by simp
  qed
  from Cons.IH [OF this] show ?case by (simp add: e)
qed

lemma length_velocities_spec: "length (velocities_spec q xs) = length xs"
  by (induction q xs rule: velocities_spec.induct) simp_all

lemma window_velocities:
  "length (mousePositions a) \<le> 150 \<Longrightarrow> length (mouseVelocities a) = length (mousePositions a) \<Longrightarrow>
     mouseVelocities (trackAll a evs) =
       lastn 150 (mouseVelocities a @
                  velocities_spec (lastMousePos a, lastMouseTime a)
                    (accepted_spec (lastMouseTime a) evs))"
proof (induction evs arbitrary: a)
  case Nil
  then show ?case by (simp add: lastn_id)
next
  case (Cons e es)
  obtain x y now where e: "e = (x, y, now)" by (cases e)
  show ?case
  proof (cases "now - lastMouseTime a < 30")
    case True
    with Cons show ?thesis by (simp add: e trackMouse_dropped)
  next
    case False
    let ?s = "\<lparr> pos_x = x, pos_y = y, pos_t = now \<rparr>"
    let ?v = "displacement (lastMousePos a) x y / real_of_int (now - lastMouseTime a)"
    let ?a = "trackMouse x y now a"
    have ps: "mousePositions ?a = lastn 150 (mousePositions a @ [?s])"
      using trackMouse_accepted(1) [OF False] lastn_snoc_step [OF Cons.prems(1)] by simp
    have vs: "mouseVelocities ?a = lastn 150 (mouseVelocities a @ [?v])"
      using trackMouse_accepted(2) [OF False] lastn_snoc_step [of "mouseVelocities a" ?v]
        Cons.prems by simp
    have l1: "length (mousePositions ?a) \<le> 150" unfolding ps by (rule length_lastn)
    have l2: "length (mouseVelocities ?a) = length (mousePositions ?a)"
      unfolding ps vs using Cons.prems by (simp add: lastn_def)
    from Cons.IH [OF l1 l2]
    have "mouseVelocities (trackAll ?a es) =
            lastn 150 (lastn 150 (mouseVelocities a @ [?v]) @
                       velocities_spec ((x, y), now) (accepted_spec now es))"
      by (simp add: vs trackMouse_accepted(3,4) [OF False])
    also have "\<dots> = lastn 150 ((mouseVelocities a @ [?v]) @
                                velocities_spec ((x, y), now) (accepted_spec now es))"
      by (rule lastn_lastn_append)
    finally show ?thesis using False by (simp add: e)
  qed
qed

text \<open>
  Claim C6. After any sequence of calls of \<open>trackMouse\<close> on a fresh analyzer, the position
  and velocity sequences have the same length, at most 150; the positions are the last 150
  accepted samples in their order and the velocities are the velocities of these samples,
  index by index: with \<open>N\<close> accepted samples, \<open>N > 150\<close>, index 0 holds accepted sample
  number \<open>N - 150\<close> (counting from 0).
\<close>

theorem telemetry_window:
  "let a = trackAll (new_BehaviorAnalyzer s) evs;
       acc = accepted_spec 0 evs;
       N = length acc
   in length (mousePositions a) \<le> 150 \<and>
      length (mouseVelocities a) = length (mousePositions a) \<and>
      mousePositions a = drop (N - 150) acc \<and>
      mouseVelocities a = drop (N - 150) (velocities_spec ((0, 0), 0) acc) \<and>
      (N > 150 \<longrightarrow> length (mousePositions a) = 150 \<and> mousePositions a ! 0 = acc ! (N - 150))"
proof -
  let ?a = "trackAll (new_BehaviorAnalyzer s) evs"
  let ?acc = "accepted_spec 0 evs"
  have w: "mousePositions ?a = drop (length ?acc - 150) ?acc"
    using window_positions [of "new_BehaviorAnalyzer s" evs]
    by (simp add: fresh_fields lastn_def)
  have l: "length (mouseVelocities ?a) = length (mousePositions ?a)"
    by (rule window_lengths) (simp add: fresh_fields)
  have v: "mouseVelocities ?a = drop (length ?acc - 150) (velocities_spec ((0, 0), 0) ?acc)"
    using window_velocities [of "new_BehaviorAnalyzer s" evs]
    by (simp add: fresh_fields lastn_def length_velocities_spec)
  have b: "length (mousePositions ?a) \<le> 150"
    unfolding w by simp
  have i: "length ?acc > 150 \<Longrightarrow>
             length (mousePositions ?a) = 150 \<and> mousePositions ?a ! 0 = ?acc ! (length ?acc - 150)"
    unfolding w by simp
  show ?thesis
    unfolding Let_def using w v l b i by blast
qed

lemma accepted_spaced:
  "accepted_spec (30 * int k) (map (\<lambda>i. (0, 0, 30 * int i)) [Suc k..<n]) =
     map (\<lambda>i. \<lparr> pos_x = 0, pos_y = 0, pos_t = 30 * int i \<rparr>) [Suc k..<n]"
proof (induction "n - Suc k" arbitrary: k)
  case 0
  then show ?case by simp
next
  case (Suc d)
  then have lt: "Suc k < n" and d: "d = n - Suc (Suc k)" by simp_all
  from lt have u: "[Suc k..<n] = Suc k # [Suc (Suc k)..<n]" by (simp add: upt_conv_Cons)
  show ?case
    unfolding u using Suc.hyps(1) [OF d] by simp
qed

lemma accepted_spaced_events:
  "accepted_spec 0 (spaced_events n) =
     map (\<lambda>i. \<lparr> pos_x = 0, pos_y = 0, pos_t = 30 * int i \<rparr>) [1..<Suc n]"
  unfolding spaced_events_def using accepted_spaced [of 0 "Suc n"] by simp

text \<open>Witness of C6: 151 events 30 ms apart are all accepted; the window then holds 150
  samples and starts with the second one.\<close>

theorem telemetry_window_witness:
  "length (accepted_spec 0 (spaced_events 151)) = 151 \<and>
   length (mousePositions (trackAll (new_BehaviorAnalyzer 7) (spaced_events 151))) = 150 \<and>
   length (mouseVelocities (trackAll (new_BehaviorAnalyzer 7) (spaced_events 151))) = 150 \<and>
   mousePositions (trackAll (new_BehaviorAnalyzer 7) (spaced_events 151)) ! 0 =
     \<lparr> pos_x = 0, pos_y = 0, pos_t = 60 \<rparr>"
proof -
  have n: "length (accepted_spec 0 (spaced_events 151)) = 151"
    by (simp add: accepted_spaced_events)
  have e: "accepted_spec 0 (spaced_events 151) ! 1 = \<lparr> pos_x = 0, pos_y = 0, pos_t = 60 \<rparr>"
    unfolding accepted_spaced_events by (simp del: upt_Suc)
  show ?thesis
    using telemetry_window [of 7 "spaced_events 151"] n e
    by (simp add: Let_def length_velocities_spec)
qed

lemma baseline_trackAll:
  "baseline (trackAll a evs) =
     (case rev (accepted_spec (lastMouseTime a) evs) of
        [] \<Rightarrow> baseline a
      | s # _ \<Rightarrow> ((pos_x s, pos_y s), pos_t s))"
proof (induction evs arbitrary: a)
  case Nil
  show ?case by simp
next
  case (Cons e es)
  obtain x y now where e: "e = (x, y, now)" by (cases e)
  show ?case
  proof (cases "now - lastMouseTime a < 30")
    case True
    then show ?thesis using Cons.IH [of a] by (simp add: e trackMouse_dropped)
  next
    case False
    then show ?thesis
      using Cons.IH [of "trackMouse x y now a"]
      by (simp add: e trackMouse_accepted(3,4) baseline_def split: list.splits)
  qed
qed

text \<open>
  Claim C7. An event less than 30 ms after the last accepted sample leaves the analyzer
  unchanged, so the call that follows behaves as if the dropped event had not occurred. An
  accepted event appends its sample and the velocity computed from the displacement and
  the interval to the last accepted sample, and becomes the new baseline; after any
  sequence of calls on a fresh analyzer the baseline is the last accepted sample.
\<close>

theorem throttle_frame:
  "(now - lastMouseTime a < 30 \<longrightarrow>
      trackMouse x y now a = a \<and>
      trackMouse x' y' now' (trackMouse x y now a) = trackMouse x' y' now' a) \<and>
   (30 \<le> now - lastMouseTime a \<longrightarrow>
      mousePositions (trackMouse x y now a) =
        drop (if 150 \<le> length (mousePositions a) then 1 else 0)
          (mousePositions a @ [\<lparr> pos_x = x, pos_y = y, pos_t = now \<rparr>]) \<and>
      mouseVelocities (trackMouse x y now a) =
        drop (if 150 \<le> length (mousePositions a) then 1 else 0)
          (mouseVelocities a @
            [sqrt ((x - fst (lastMousePos a)) * (x - fst (lastMousePos a)) +
                   (y - snd (lastMousePos a)) * (y - snd (lastMousePos a)))
               / real_of_int (now - lastMouseTime a)]) \<and>
      baseline (trackMouse x y now a) = ((x, y), now)) \<and>
   baseline (trackAll (new_BehaviorAnalyzer s) evs) =
     (case rev (accepted_spec 0 evs) of
        [] \<Rightarrow> ((0, 0), 0)
      | p # _ \<Rightarrow> ((pos_x p, pos_y p), pos_t p))"
proof -
  have d: "now - lastMouseTime a < 30 \<Longrightarrow>
      trackMouse x y now a = a \<and>
      trackMouse x' y' now' (trackMouse x y now a) = trackMouse x' y' now' a"
    by (simp add: trackMouse_dropped)
  have acc: "30 \<le> now - lastMouseTime a \<Longrightarrow>
      mousePositions (trackMouse x y now a) =
        drop (if 150 \<le> length (mousePositions a) then 1 else 0)
          (mousePositions a @ [\<lparr> pos_x = x, pos_y = y, pos_t = now \<rparr>]) \<and>
      mouseVelocities (trackMouse x y now a) =
        drop (if 150 \<le> length (mousePositions a) then 1 else 0)
          (mouseVelocities a @
            [sqrt ((x - fst (lastMousePos a)) * (x - fst (lastMousePos a)) +
                   (y - snd (lastMousePos a)) * (y - snd (lastMousePos a)))
               / real_of_int (now - lastMouseTime a)]) \<and>
      baseline (trackMouse x y now a) = ((x, y), now)"
  proof -
    assume "30 \<le> now - lastMouseTime a"
    then have f: "\<not> now - lastMouseTime a < 30" by simp
    show ?thesis
      unfolding trackMouse_accepted(1,2) [OF f] baseline_def trackMouse_accepted(3,4) [OF f]
      by (simp add: displacement_def)
  qed
  have b: "baseline (trackAll (new_BehaviorAnalyzer s) evs) =
     (case rev (accepted_spec 0 evs) of
        [] \<Rightarrow> ((0, 0), 0)
      | p # _ \<Rightarrow> ((pos_x p, pos_y p), pos_t p))"
    using baseline_trackAll [of "new_BehaviorAnalyzer s" evs]
    by (simp add: fresh_fields baseline_def split: list.splits)
  show ?thesis using d acc b by blast
qed

lemma firstAccepted_fields:
  "lastMouseTime firstAccepted = 1000"
  "lastMousePos firstAccepted = (10, 0)"
  "mousePositions firstAccepted = [\<lparr> pos_x = 10, pos_y = 0, pos_t = 1000 \<rparr>]"
  "mouseVelocities firstAccepted = [1 / 100]"
proof -
  have f: "\<not> 1000 - lastMouseTime (new_BehaviorAnalyzer 900) < 30"
    by (simp add: fresh_fields)
  show "lastMouseTime firstAccepted = 1000" "lastMousePos firstAccepted = (10, 0)"
    unfolding firstAccepted_def trackMouse_accepted(3,4) [OF f] by simp_all
  show "mousePositions firstAccepted = [\<lparr> pos_x = 10, pos_y = 0, pos_t = 1000 \<rparr>]"
    unfolding firstAccepted_def trackMouse_accepted(1) [OF f] by (simp add: fresh_fields)
  show "mouseVelocities firstAccepted = [1 / 100]"
    unfolding firstAccepted_def trackMouse_accepted(2) [OF f]
    by (simp add: fresh_fields displacement_def sqrt_values)
qed

text \<open>Witness of C7: after a sample at (10, 0) at time 1000, the event (50, 50) at 1010 is
  dropped and the event (13, 4) at 1040 gets the velocity 5 / 40, measured from (10, 0).\<close>

theorem throttle_frame_witness:
  "1010 - lastMouseTime firstAccepted < 30 \<and>
   trackMouse 50 50 1010 firstAccepted = firstAccepted \<and>
   30 \<le> 1040 - lastMouseTime firstAccepted \<and>
   mouseVelocities (trackMouse 13 4 1040 (trackMouse 50 50 1010 firstAccepted)) = [1 / 100, 1 / 8] \<and>
   baseline (trackMouse 13 4 1040 (trackMouse 50 50 1010 firstAccepted)) = ((13, 4), 1040)"
proof -
  have h1: "1010 - lastMouseTime firstAccepted < 30"
    and h2: "30 \<le> 1040 - lastMouseTime firstAccepted"
    by (simp_all add: firstAccepted_fields)
  have d: "trackMouse 50 50 1010 firstAccepted = firstAccepted \<and>
           trackMouse 13 4 1040 (trackMouse 50 50 1010 firstAccepted) =
           trackMouse 13 4 1040 firstAccepted"
    using throttle_frame [where now = 1010 and a = firstAccepted and x = 50 and y = 50
        and x' = 13 and y' = 4 and now' = 1040] h1
    by blast
  have v: "mouseVelocities (trackMouse 13 4 1040 firstAccepted) = [1 / 100, 1 / 8] \<and>
           baseline (trackMouse 13 4 1040 firstAccepted) = ((13, 4), 1040)"
    using throttle_frame [where now = 1040 and a = firstAccepted and x = 13 and y = 4] h2
    by (simp add: firstAccepted_fields sqrt_values)
  show ?thesis using h1 h2 d v by simp
qed



subsection \<open>Double arithmetic\<close>

text \<open>\<open>ilog2\<close> is the integer part of the binary logarithm.\<close>

lemma pow2_pos: "0 < pow2 e"
  by (simp add: pow2_def)

lemma pow_le_real: "2 ^ k \<le> (n::nat) \<Longrightarrow> (2::real) ^ k \<le> real n"
  using of_nat_le_iff [of "2 ^ k" n, where ?'a = real] by simp

lemma lt_pow_real: "(n::nat) < 2 ^ k \<Longrightarrow> real n + 1 \<le> 2 ^ k"
  using of_nat_le_iff [of "n + 1" "2 ^ k", where ?'a = real] by simp

lemma floorlog2_bounds:
  assumes "0 < n"
  shows "0 < floorlog 2 n" "(2::real) ^ (floorlog 2 n - 1) \<le> real n" "real n + 1 \<le> 2 ^ floorlog 2 n"
proof -
  show "0 < floorlog 2 n" using assms by (simp add: floorlog_def)
  show "(2::real) ^ (floorlog 2 n - 1) \<le> real n"
    using floorlog_bounds [of n 2] assms by (intro pow_le_real) simp
  show "real n + 1 \<le> 2 ^ floorlog 2 n"
    using floorlog_bounds [of n 2] assms by (intro lt_pow_real) simp
qed

lemma ceiling_pred:
  assumes "1 < (y::real)"
  shows "0 < nat (\<lceil>y\<rceil> - 1)" "real (nat (\<lceil>y\<rceil> - 1)) < y" "y \<le> real (nat (\<lceil>y\<rceil> - 1)) + 1"
proof -
  have c: "2 \<le> \<lceil>y\<rceil>" using assms by linarith
  then show "0 < nat (\<lceil>y\<rceil> - 1)" by simp
  have r: "real (nat (\<lceil>y\<rceil> - 1)) = of_int \<lceil>y\<rceil> - 1" using c by simp
  show "real (nat (\<lceil>y\<rceil> - 1)) < y" unfolding r by linarith
  show "y \<le> real (nat (\<lceil>y\<rceil> - 1)) + 1" unfolding r by linarith
qed

lemma ilog2_ge1:
  assumes "1 \<le> q"
  shows "pow2 (ilog2 q) \<le> q" "q < pow2 (ilog2 q + 1)"
proof -
  define n where "n = nat \<lfloor>q\<rfloor>"
  have n: "0 < n" using assms by (simp add: n_def)
  have lo: "real n \<le> q" and hi: "q < real n + 1"
    using assms by (simp_all add: n_def)
  note b = floorlog2_bounds [OF n]
  have e: "ilog2 q = int (floorlog 2 n) - 1" using assms by (simp add: ilog2_def n_def)
  have p1: "pow2 (ilog2 q) = 2 ^ (floorlog 2 n - 1)"
    unfolding e using b(1) by (simp add: pow2_def nat_diff_distrib)
  have p2: "pow2 (ilog2 q + 1) = 2 ^ floorlog 2 n"
    unfolding e by (simp add: pow2_def)
  show "pow2 (ilog2 q) \<le> q" unfolding p1 using b(2) lo by linarith
  show "q < pow2 (ilog2 q + 1)" unfolding p2 using b(3) hi by linarith
qed

lemma ilog2_lt1:
  assumes "0 < q" and "q < 1"
  shows "pow2 (ilog2 q) \<le> q" "q < pow2 (ilog2 q + 1)"
proof -
  define n where "n = nat (\<lceil>1 / q\<rceil> - 1)"
  have y: "1 < 1 / q" using assms by simp
  note c = ceiling_pred [OF y, folded n_def]
  note b = floorlog2_bounds [OF c(1)]
  have e: "ilog2 q = - int (floorlog 2 n)" using assms by (simp add: ilog2_def n_def)
  have p1: "pow2 (ilog2 q) = 1 / 2 ^ floorlog 2 n"
    unfolding e by (simp add: pow2_def)
  have p2: "pow2 (ilog2 q + 1) = 1 / 2 ^ (floorlog 2 n - 1)"
    unfolding e using b(1) by (simp add: pow2_def nat_diff_distrib)
  have "1 / q \<le> 2 ^ floorlog 2 n" using c(3) b(3) by linarith
  then show "pow2 (ilog2 q) \<le> q" unfolding p1 using assms by (simp add: field_simps)
  have "(2::real) ^ (floorlog 2 n - 1) < 1 / q" using c(2) b(2) by linarith
  then show "q < pow2 (ilog2 q + 1)" unfolding p2 using assms by (simp add: field_simps)
qed

lemma ilog2_bounds:
  assumes "0 < q"
  shows "pow2 (ilog2 q) \<le> q \<and> q < pow2 (ilog2 q + 1)"
  using assms ilog2_ge1 [of q] ilog2_lt1 [of q] by (cases "1 \<le> q") simp_all

text \<open>\<open>to_double q\<close> is within half a unit in the last place of \<open>q\<close>; in the normal range
  it has a significand of 53 bits; and it leaves the integers below \<open>2 ^ 53\<close> as they
  are.\<close>

lemma pow2_powi: "pow2 e = 2 powi e"
  by (simp add: pow2_def power_int_def inverse_eq_divide power_one_over)

lemma pow2_add: "pow2 (a + b) = pow2 a * pow2 b"
  by (simp add: pow2_powi power_int_add)

lemma pow2_mono: "a \<le> b \<Longrightarrow> pow2 a \<le> pow2 b"
  by (simp add: pow2_powi power_int_increasing)

lemma pow2_less_imp: "pow2 a < pow2 b \<Longrightarrow> a < b"
  using pow2_mono [of b a] by (cases "a < b") simp_all

lemma round_even_error: "\<bar>real_of_int (round_even x) - x\<bar> \<le> 1 / 2"
  unfolding round_even_def Let_def by (simp split: if_splits)

lemma round_even_int: "round_even (real_of_int k) = k"
  by (simp add: round_even_def)

lemma round_even_range:
  assumes "real_of_int lo \<le> x" and "x < real_of_int hi"
  shows "lo \<le> round_even x \<and> round_even x \<le> hi"
proof -
  have "lo \<le> \<lfloor>x\<rfloor>" using assms(1) by (simp add: le_floor_iff)
  moreover have "\<lfloor>x\<rfloor> < hi" using assms(2) by (simp add: floor_less_iff)
  ultimately show ?thesis by (simp add: round_even_def Let_def)
qed

lemma to_double_error:
  assumes "q \<noteq> 0"
  shows "\<bar>to_double q - q\<bar> \<le> pow2 (max (ilog2 \<bar>q\<bar>) (- 1022) - 52) / 2"
proof -
  define u where "u = pow2 (max (ilog2 \<bar>q\<bar>) (- 1022) - 52)"
  define m where "m = round_even (\<bar>q\<bar> / u)"
  have u: "0 < u" by (simp add: u_def pow2_pos)
  have t: "to_double q = sgn q * real_of_int m * u"
    using assms by (simp add: to_double_def Let_def u_def m_def)
  have q: "q = sgn q * (\<bar>q\<bar> / u) * u" using u by (simp add: sgn_mult_abs)
  have "to_double q - q = sgn q * (real_of_int m - \<bar>q\<bar> / u) * u"
    unfolding t by (subst (2) q) (simp add: algebra_simps)
  then have "\<bar>to_double q - q\<bar> = \<bar>real_of_int m - \<bar>q\<bar> / u\<bar> * u"
    using assms u by (simp add: abs_mult abs_sgn_eq)
  also have "\<dots> \<le> 1 / 2 * u"
    using round_even_error [of "\<bar>q\<bar> / u"] u unfolding m_def
    by (intro mult_right_mono) simp_all
  finally show ?thesis by (simp add: u_def)
qed

lemma to_double_significand:
  assumes "pow2 (- 1022) \<le> \<bar>q\<bar>"
  shows "\<exists>m. 2 ^ 52 \<le> m \<and> m \<le> 2 ^ 53 \<and>
             to_double q = sgn q * real_of_int m * pow2 (ilog2 \<bar>q\<bar> - 52)"
proof -
  have pos: "0 < \<bar>q\<bar>" using assms pow2_pos [of "- 1022"] by linarith
  then have q0: "q \<noteq> 0" by simp
  note b = ilog2_bounds [OF pos]
  have "pow2 (- 1022) < pow2 (ilog2 \<bar>q\<bar> + 1)" using assms b by linarith
  then have e: "- 1022 \<le> ilog2 \<bar>q\<bar>" using pow2_less_imp [of "- 1022" "ilog2 \<bar>q\<bar> + 1"] by simp
  define u where "u = pow2 (ilog2 \<bar>q\<bar> - 52)"
  have u: "0 < u" by (simp add: u_def pow2_pos)
  have c: "pow2 52 = 2 ^ 52" "pow2 53 = 2 ^ 53" by (simp_all add: pow2_def)
  have p1: "pow2 (ilog2 \<bar>q\<bar>) = 2 ^ 52 * u"
    using pow2_add [of 52 "ilog2 \<bar>q\<bar> - 52"] unfolding c u_def by simp
  have p2: "pow2 (ilog2 \<bar>q\<bar> + 1) = 2 ^ 53 * u"
    using pow2_add [of 53 "ilog2 \<bar>q\<bar> - 52"] unfolding c u_def by (simp add: add.commute)
  have lo: "real_of_int (2 ^ 52) \<le> \<bar>q\<bar> / u"
    using b u unfolding p1 by (simp add: field_simps)
  have hi: "\<bar>q\<bar> / u < real_of_int (2 ^ 53)"
    using b u unfolding p2 by (simp add: field_simps)
  have t: "to_double q = sgn q * real_of_int (round_even (\<bar>q\<bar> / u)) * u"
    using q0 e by (simp add: to_double_def Let_def u_def max_def)
  show ?thesis
    using round_even_range [OF lo hi] t unfolding u_def by blast
qed

lemma to_double_int:
  assumes "\<bar>n\<bar> < 2 ^ 53"
  shows "to_double (real_of_int n) = real_of_int n"
proof (cases "n = 0")
  case True
  then show ?thesis by (simp add: to_double_def)
next
  case False
  define a where "a = \<bar>real_of_int n\<bar>"
  have a1: "1 \<le> a" using False by (simp add: a_def)
  then have pos: "0 < a" by simp
  note b = ilog2_bounds [OF pos]
  have "pow2 0 < pow2 (ilog2 a + 1)" using a1 b by (simp add: pow2_def)
  then have e0: "0 \<le> ilog2 a" using pow2_less_imp [of 0 "ilog2 a + 1"] by simp
  have "a < 2 ^ 53" using assms unfolding a_def
    by (metis of_int_abs of_int_less_iff of_int_numeral of_int_power)
  then have "pow2 (ilog2 a) < pow2 53" using b by (simp add: pow2_def)
  then have e52: "ilog2 a \<le> 52" using pow2_less_imp [of "ilog2 a" 53] by simp
  define k where "k = nat (52 - ilog2 a)"
  have u: "pow2 (max (ilog2 a) (- 1022) - 52) = 1 / 2 ^ k"
    using e0 e52 by (simp add: pow2_def k_def max_def)
  have "a / (1 / 2 ^ k) = real_of_int (\<bar>n\<bar> * 2 ^ k)" by (simp add: a_def)
  then have r: "round_even (a / (1 / 2 ^ k)) = \<bar>n\<bar> * 2 ^ k"
    using round_even_int [of "\<bar>n\<bar> * 2 ^ k"] by simp
  have "to_double (real_of_int n) = sgn (real_of_int n) * real_of_int (\<bar>n\<bar> * 2 ^ k) * (1 / 2 ^ k)"
    using False u r by (simp add: to_double_def Let_def a_def)
  also have "\<dots> = sgn (real_of_int n) * \<bar>real_of_int n\<bar>" by simp
  finally show ?thesis by (simp add: sgn_mult_abs)
qed

text \<open>Evaluation of double arithmetic on numerals, and the literals of the source:
  \<open>0.3 = 0x3FD3333333333333\<close>, \<open>0.4 = 0x3FD999999999999A\<close>,
  \<open>0.6 = 0x3FE3333333333333\<close>, \<open>0.7 = 0x3FE6666666666666\<close>,
  \<open>1.1 = 0x3FF199999999999A\<close>.\<close>

lemmas double_eval = to_double_def ilog2_def compute_floorlog pow2_def round_even_def Let_def
  d_add_def d_sub_def d_mul_def d_div_def

lemma double_literals:
  "to_double (3 / 10) = 5404319552844595 / 2 ^ 54"
  "to_double (4 / 10) = 7205759403792794 / 2 ^ 54"
  "to_double (6 / 10) = 5404319552844595 / 2 ^ 53"
  "to_double (7 / 10) = 3152519739159347 / 2 ^ 52"
  "to_double (11 / 10) = 2476979795053773 / 2 ^ 51"
  "to_double (21 / 50) = 7566047373982433 / 2 ^ 54"
  by (simp_all add: double_eval)

text \<open>The confidence is \<open>Math.round(total * 1.1)\<close>. At the totals where \<open>total * 1.1\<close> is
  a tie between two integers, the product in double arithmetic rounds to the same integer
  as the exact product.\<close>

lemma confidence_ties:
  "Math_round (d_mul 5 (to_double (11 / 10))) = Math_round (5 * 1.1) \<and>
   Math_round (d_mul 15 (to_double (11 / 10))) = Math_round (15 * 1.1) \<and>
   Math_round (d_mul 25 (to_double (11 / 10))) = Math_round (25 * 1.1) \<and>
   Math_round (d_mul 35 (to_double (11 / 10))) = Math_round (35 * 1.1) \<and>
   Math_round (d_mul 45 (to_double (11 / 10))) = Math_round (45 * 1.1) \<and>
   Math_round (d_mul 55 (to_double (11 / 10))) = Math_round (55 * 1.1) \<and>
   Math_round (d_mul 65 (to_double (11 / 10))) = Math_round (65 * 1.1) \<and>
   Math_round (d_mul 75 (to_double (11 / 10))) = Math_round (75 * 1.1) \<and>
   Math_round (d_mul 85 (to_double (11 / 10))) = Math_round (85 * 1.1) \<and>
   Math_round (d_mul 95 (to_double (11 / 10))) = Math_round (95 * 1.1)"
  by (simp add: double_eval Math_round_def)

subsection \<open>The rhythm challenge\<close>

lemma nearest_fold_Some:
  "foldl (nearest_step t) (Some m) bs = Some (Min (insert m ((\<lambda>b. \<bar>t - b\<bar>) ` set bs)))"
proof (induction bs arbitrary: m)
  case Nil
  show ?case by simp
next
  case (Cons b bs)
  have s: "nearest_step t (Some m) b = Some (min m \<bar>t - b\<bar>)"
    by (simp add: nearest_step_def Let_def min_def)
  have "Min (insert (min m \<bar>t - b\<bar>) ((\<lambda>b. \<bar>t - b\<bar>) ` set bs)) =
        Min (insert m (insert \<bar>t - b\<bar> ((\<lambda>b. \<bar>t - b\<bar>) ` set bs)))"
    by (cases "set bs = {}") (simp_all add: min.assoc)
  then show ?case by (simp add: s Cons.IH)
qed

lemma nearest_nonempty: "bs \<noteq> [] \<Longrightarrow> nearest bs t = Some (nearest_dist bs t)"
proof (cases bs)
  case Nil
  then show "bs \<noteq> [] \<Longrightarrow> ?thesis" by simp
next
  case (Cons b r)
  have "nearest_step t None b = Some \<bar>t - b\<bar>" by (simp add: nearest_step_def)
  then show ?thesis
    unfolding nearest_def nearest_dist_def Cons by (simp add: nearest_fold_Some)
qed

lemma tap_fold:
  assumes "bs \<noteq> []"
  shows "foldl (tap_step bs) (e0, m0) taps =
           (e0 + (\<Sum>t\<leftarrow>matched_taps bs taps. nearest_dist bs t), m0 + length (matched_taps bs taps))"
proof (induction taps arbitrary: e0 m0)
  case Nil
  show ?case by (simp add: matched_taps_def)
next
  case (Cons t ts)
  have s: "tap_step bs (e0, m0) t =
           (if nearest_dist bs t < 250 then (e0 + nearest_dist bs t, m0 + 1) else (e0, m0))"
    by (simp add: tap_step_def nearest_nonempty [OF assms])
  show ?case
    using Cons.IH by (simp add: s matched_taps_def)
qed

lemma evaluateRhythm_formula:
  assumes "beats p \<noteq> []"
  shows "evaluateRhythm (Some p) taps =
     Some (Rhythm,
           Num (d_add (d_mul (d_div (real (length (matched_taps (beats p) taps)))
                                    (real (length (beats p))))
                             (to_double (6 / 10)))
                      (d_mul (timingQuality (beats p) taps) (to_double (4 / 10)))))"
  using assms
  by (simp add: evaluateRhythm_def tap_fold [OF assms] timingQuality_def Let_def)

lemma matched_none:
  assumes "bs \<noteq> []" and "\<forall>t\<in>set taps. \<forall>b\<in>set bs. 250 < \<bar>t - b\<bar>"
  shows "matched_taps bs taps = []"
proof -
  have "\<not> nearest_dist bs t < 250" if "t \<in> set taps" for t
  proof -
    have "250 < Min ((\<lambda>b. \<bar>t - b\<bar>) ` set bs)"
      using assms that by simp
    then show ?thesis by (simp add: nearest_dist_def)
  qed
  then show ?thesis by (simp add: matched_taps_def)
qed

text \<open>
  Claim C4. For every pattern with at least one beat and every tap list, the distance that
  \<open>evaluateRhythm\<close> finds for a tap is the least absolute difference to a beat; the
  matched taps are those whose distance is strictly under 250; the accuracy passed on is
  \<open>0.6 * (matched / totalBeats) + 0.4 * timingQuality\<close>, where \<open>timingQuality\<close> is
  \<open>max 0 (1 - meanMatchedError / 250)\<close>, and 0 when no tap is matched (nothing is
  divided by zero then), each operation being that of double arithmetic; and when every
  tap is more than 250 ms from every beat the accuracy is 0.
\<close>

theorem rhythm_accuracy:
  assumes "beats p \<noteq> []"
  shows "(\<forall>t. nearest (beats p) t = Some (Min ((\<lambda>b. \<bar>t - b\<bar>) ` set (beats p)))) \<and>
         matched_taps (beats p) taps =
           filter (\<lambda>t. Min ((\<lambda>b. \<bar>t - b\<bar>) ` set (beats p)) < 250) taps \<and>
         evaluateRhythm (Some p) taps =
           Some (Rhythm,
                 Num (d_add (d_mul (d_div (real (length (matched_taps (beats p) taps)))
                                          (real (length (beats p))))
                                   (to_double (6 / 10)))
                            (d_mul (timingQuality (beats p) taps) (to_double (4 / 10))))) \<and>
         timingQuality (beats p) taps =
           (if matched_taps (beats p) taps = [] then 0
            else max 0 (d_sub 1 (d_div (d_div (real_of_int (\<Sum>t\<leftarrow>matched_taps (beats p) taps.
                                                             Min ((\<lambda>b. \<bar>t - b\<bar>) ` set (beats p))))
                                              (real (length (matched_taps (beats p) taps)))) 250))) \<and>
         ((\<forall>t\<in>set taps. \<forall>b\<in>set (beats p). 250 < \<bar>t - b\<bar>) \<longrightarrow>
            evaluateRhythm (Some p) taps = Some (Rhythm, Num 0))"
proof -
  have n: "\<forall>t. nearest (beats p) t = Some (Min ((\<lambda>b. \<bar>t - b\<bar>) ` set (beats p)))"
    using nearest_nonempty [OF assms] by (simp add: nearest_dist_def)
  have m: "matched_taps (beats p) taps =
           filter (\<lambda>t. Min ((\<lambda>b. \<bar>t - b\<bar>) ` set (beats p)) < 250) taps"
    by (simp add: matched_taps_def nearest_dist_def)
  have q: "timingQuality (beats p) taps =
           (if matched_taps (beats p) taps = [] then 0
            else max 0 (d_sub 1 (d_div (d_div (real_of_int (\<Sum>t\<leftarrow>matched_taps (beats p) taps.
                                                             Min ((\<lambda>b. \<bar>t - b\<bar>) ` set (beats p))))
                                              (real (length (matched_taps (beats p) taps)))) 250)))"
    by (simp add: timingQuality_def nearest_dist_def [abs_def])
  have z: "evaluateRhythm (Some p) taps = Some (Rhythm, Num 0)"
    if "\<forall>t\<in>set taps. \<forall>b\<in>set (beats p). 250 < \<bar>t - b\<bar>"
    using matched_none [OF assms that]
    by (simp add: evaluateRhythm_formula [OF assms] timingQuality_def
        d_add_def d_mul_def d_div_def to_double_def)
  show ?thesis
    using n m q evaluateRhythm_formula [OF assms, of taps] z by blast
qed

lemma example_dist:
  "nearest_dist (beats examplePattern) 10 = 10"
  "nearest_dist (beats examplePattern) 590 = 10"
  "nearest_dist (beats examplePattern) 1250 = 50"
  by (simp_all add: nearest_dist_def examplePattern_def)

lemma example_matched:
  "matched_taps (beats examplePattern) [10, 590, 1250] = [10, 590, 1250]"
  unfolding matched_taps_def by (simp add: example_dist)

lemma example_quality:
  "timingQuality (beats examplePattern) [10, 590, 1250] = 2041631831074625 / 2 ^ 51"
  unfolding timingQuality_def example_matched by (simp add: example_dist double_eval)

lemma example_accuracy:
  "d_add (d_mul (d_div 3 3) (to_double (6 / 10)))
         (d_mul (2041631831074625 / 2 ^ 51) (to_double (4 / 10))) = 8670930482563995 / 2 ^ 53"
  by (simp add: double_eval)

text \<open>Witness of C4: the beats 0, 600, 1200 with the taps 10, 590, 1250 match all three
  taps; the timing quality is the double 0.9066666666666667 and the accuracy the double
  0.9626666666666667, about 0.963. With the taps 300, 900, 1500 no tap is within 250 ms of
  a beat and the accuracy is 0.\<close>

theorem rhythm_accuracy_witness:
  "beats examplePattern \<noteq> [] \<and>
   matched_taps (beats examplePattern) [10, 590, 1250] = [10, 590, 1250] \<and>
   timingQuality (beats examplePattern) [10, 590, 1250] = 2041631831074625 / 2 ^ 51 \<and>
   evaluateRhythm (Some examplePattern) [10, 590, 1250] =
     Some (Rhythm, Num (8670930482563995 / 2 ^ 53)) \<and>
   \<bar>8670930482563995 / 2 ^ 53 - 0.963\<bar> < (0.001 :: real) \<and>
   list_all (\<lambda>t. list_all (\<lambda>b. 250 < \<bar>t - b\<bar>) (beats examplePattern)) [300, 900, 1500] \<and>
   evaluateRhythm (Some examplePattern) [300, 900, 1500] = Some (Rhythm, Num 0)"
proof -
  have h: "beats examplePattern \<noteq> []"
    by (simp add: examplePattern_def)
  have far: "\<forall>t\<in>set [300, 900, 1500]. \<forall>b\<in>set (beats examplePattern). 250 < \<bar>t - b\<bar>"
    by (simp add: examplePattern_def)
  have len: "real (length (beats examplePattern)) = 3"
    "real (length [10, 590, 1250 :: int]) = 3"
    by (simp_all add: examplePattern_def)
  have "evaluateRhythm (Some examplePattern) [10, 590, 1250] =
          Some (Rhythm,
                Num (d_add (d_mul (d_div (real (length (matched_taps (beats examplePattern) [10, 590, 1250])))
                                         (real (length (beats examplePattern))))
                                  (to_double (6 / 10)))
                           (d_mul (timingQuality (beats examplePattern) [10, 590, 1250])
                                  (to_double (4 / 10)))))"
    using rhythm_accuracy [OF h, of "[10, 590, 1250]"] by blast
  then have e1: "evaluateRhythm (Some examplePattern) [10, 590, 1250] =
                   Some (Rhythm, Num (8670930482563995 / 2 ^ 53))"
    unfolding example_matched example_quality len example_accuracy .
  have e2: "evaluateRhythm (Some examplePattern) [300, 900, 1500] = Some (Rhythm, Num 0)"
    using rhythm_accuracy [OF h, of "[300, 900, 1500]"] far by blast
  have a: "\<bar>8670930482563995 / 2 ^ 53 - 0.963\<bar> < (0.001 :: real)" by simp
  have far': "list_all (\<lambda>t. list_all (\<lambda>b. 250 < \<bar>t - b\<bar>) (beats examplePattern)) [300, 900, 1500]"
    using far unfolding list_all_iff .
  show ?thesis
    using h far' e1 e2 example_matched example_quality a by blast
qed

text \<open>The two cases outside C4: a pattern without beats, and no pattern.\<close>

lemma evaluateRhythm_no_beats:
  "evaluateRhythm (Some \<lparr> p_name = n, beats = [] \<rparr>) taps = Some (Rhythm, NaN)"
  "evaluateRhythm None taps = None"
  by (simp_all add: evaluateRhythm_def split: prod.splits)

subsection \<open>Precision rings\<close>

lemma clickAccuracy_values:
  "clickAccuracy (to_double (7 / 10)) = 1"
  "clickAccuracy (to_double (11 / 10)) = 0"
  "clickAccuracy (to_double (3 / 10)) = 1 / 2 ^ 53"
  "clickAccuracy (to_double (21 / 50)) = 5404319552844598 / 2 ^ 54"
  unfolding clickAccuracy_def by (simp_all add: double_eval)

lemma spawn_click:
  assumes "i < 5" and "phase c = Target"
  shows "circleResults (handleCircleClick (t0 + e) t1 (spawnCircle i t0 c)) =
           circleResults c @
             [\<lparr> hit = (clickAccuracy (d_div (of_int e) (of_int (2200 - int i * 150))) > to_double (3 / 10)),
                timing = clickAccuracy (d_div (of_int e) (of_int (2200 - int i * 150))) \<rparr>]"
  using assms by (simp add: handleCircleClick_def spawnCircle_def TOTAL_CIRCLES_def Let_def)

text \<open>
  Claim C5, as amended. A click on ring \<open>i\<close>, \<open>e\<close> ms after the ring was shown, records
  the accuracy \<open>1 - min 1 (\<bar>progress - 0.7\<bar> / 0.4)\<close> of the progress
  \<open>e / (2200 - 150 * i)\<close>, each operation rounded to a double, and records a hit exactly
  when that accuracy is greater than 0.3. At the progress 0.7 the accuracy is 1 and at the
  progress 1.1 it is 0; at the progress 0.3 it is \<open>2 ^ (- 53)\<close>, not 0, because
  \<open>0.3 - 0.7\<close> rounds to a double whose quotient by 0.4 is just below 1.
\<close>

theorem precision_click_accuracy:
  "(i < 5 \<and> phase c = Target \<longrightarrow>
      circleResults (handleCircleClick (t0 + e) t1 (spawnCircle i t0 c)) =
        circleResults c @
          [\<lparr> hit = (clickAccuracy (d_div (of_int e) (of_int (2200 - int i * 150))) > to_double (3 / 10)),
             timing = clickAccuracy (d_div (of_int e) (of_int (2200 - int i * 150))) \<rparr>]) \<and>
   clickAccuracy p = d_sub 1 (min 1 (d_div \<bar>d_sub p (to_double (7 / 10))\<bar> (to_double (4 / 10)))) \<and>
   clickAccuracy (to_double (7 / 10)) = 1 \<and>
   clickAccuracy (to_double (11 / 10)) = 0 \<and>
   clickAccuracy (to_double (3 / 10)) = 1 / 2 ^ 53"
  using spawn_click [of i c t0 e t1] clickAccuracy_values(1,2,3)
  by (simp add: clickAccuracy_def)

text \<open>Witness of C5: on the first ring (2200 ms) of a challenge started at time 1000, a
  click after 660 ms records the accuracy \<open>2 ^ (- 53)\<close> and no hit, a click after 1540 ms
  the accuracy 1 and a hit.\<close>

theorem precision_click_accuracy_witness:
  "circleResults (handleCircleClick (1000 + 660) 1661 (startPrecision 1000 (mount 0))) =
     [\<lparr> hit = False, timing = 1 / 2 ^ 53 \<rparr>] \<and>
   circleResults (handleCircleClick (1000 + 1540) 2541 (startPrecision 1000 (mount 0))) =
     [\<lparr> hit = True, timing = 1 \<rparr>]"
proof -
  let ?c = "(mount 0) \<lparr> mode := Some Precision, phase := Target, circleResults := [],
                         circlePhase := 0, clickedThisRound := False \<rparr>"
  have h: "(0::nat) < 5 \<and> phase ?c = Target" by simp
  have r: "circleResults ?c = []" by simp
  have p3: "d_div (of_int 660) (of_int (2200 - int 0 * 150)) = to_double (3 / 10)"
    and p7: "d_div (of_int 1540) (of_int (2200 - int 0 * 150)) = to_double (7 / 10)"
    by (simp_all add: d_div_def)
  have c3: "circleResults (handleCircleClick (1000 + 660) 1661 (spawnCircle 0 1000 ?c)) =
              [\<lparr> hit = False, timing = 1 / 2 ^ 53 \<rparr>]"
    using precision_click_accuracy [of 0 ?c 1000 660 1661 0] h
    unfolding r p3 clickAccuracy_values double_literals by simp
  have c7: "circleResults (handleCircleClick (1000 + 1540) 2541 (spawnCircle 0 1000 ?c)) =
              [\<lparr> hit = True, timing = 1 \<rparr>]"
    using precision_click_accuracy [of 0 ?c 1000 1540 2541 0] h
    unfolding r p7 clickAccuracy_values double_literals by simp
  show ?thesis unfolding startPrecision_def using c3 c7 by blast
qed

text \<open>Counterexample to C5 as stated: 660 ms into a ring of 2200 ms the progress is the
  double 0.3, and the accuracy is not 0.\<close>

theorem precision_click_counterexample:
  "d_div 660 2200 = to_double (3 / 10) \<and> clickAccuracy (d_div 660 2200) \<noteq> 0"
proof -
  have p: "d_div 660 2200 = to_double (3 / 10)" by (simp add: d_div_def)
  show ?thesis unfolding p clickAccuracy_values by simp
qed

subsection \<open>Reporting the verdict\<close>

lemma reportEffect_reported:
  "hasReported c \<Longrightarrow> reportEffect given c = c"
  by (simp add: reportEffect_def split: option.splits)

lemma timeout_fields:
  "hasReported (showResult_timeout m acc now c) = hasReported c"
  "onResult_calls (showResult_timeout m acc now c) = onResult_calls c"
  "phase (showResult_timeout m acc now c) = Result"
  "result (showResult_timeout m acc now c) = Some (fst (analyze m acc now (analyzerRef c)))"
  "analyzerRef (showResult_timeout m acc now c) = analyzerRef c"
  using analyze_snd [of m acc now "analyzerRef c"]
  by (auto simp: showResult_timeout_def split: prod.splits)

lemma observe_reported:
  "hasReported c \<Longrightarrow> onResult_calls (observe given c os) = onResult_calls c"
proof (induction os arbitrary: c)
  case Nil
  show ?case by simp
next
  case (Cons ob os)
  show ?case
  proof (cases ob)
    case Render
    with Cons show ?thesis by (simp add: reportEffect_reported)
  next
    case (ResultTimer m acc now)
    with Cons.prems Cons.IH [of "showResult_timeout m acc now c"] show ?thesis
      by (simp add: timeout_fields)
  qed
qed

lemma first_render:
  assumes "\<not> hasReported c"
  shows "hasReported (reportEffect given (showResult_timeout m acc now c))"
    and "onResult_calls (reportEffect True (showResult_timeout m acc now c)) =
           onResult_calls c @ [isHuman (fst (analyze m acc now (analyzerRef c)))]"
    and "onResult_calls (reportEffect False (showResult_timeout m acc now c)) = onResult_calls c"
  using assms by (simp_all add: reportEffect_def timeout_fields)

text \<open>Only the effect and \<open>reset\<close> write \<open>hasReported\<close>; it is false at mount and after
  \<open>reset\<close>.\<close>

lemma handlers_keep_hasReported:
  "hasReported (showResult c) = hasReported c"
  "hasReported (showResult_timeout m acc now c) = hasReported c"
  "hasReported (spawnCircle i now c) = hasReported c"
  "hasReported (circle_timeout c) = hasReported c"
  "hasReported (handleCircleClick now now' c) = hasReported c"
  "hasReported (mount now) = False"
  "hasReported (reset now c) = False"
  by (simp_all add: showResult_def timeout_fields spawnCircle_def circle_timeout_def
      handleCircleClick_def mount_def reset_def Let_def split: option.splits)




lemma reset_fields:
  "hasReported (reset now c) = False"
  "onResult_calls (reset now c) = onResult_calls c"
  "phase (reset now c) = Idle"
  "result (reset now c) = None"
  by (simp_all add: reset_def)

text \<open>Without the prop there is no call.\<close>

lemma onResult_absent:
  "\<not> hasReported c \<Longrightarrow>
     onResult_calls (observe False (showResult_timeout m acc now c) (Render # os)) = onResult_calls c"
  using observe_reported [of "reportEffect False (showResult_timeout m acc now c)" False os]
  by (simp add: first_render)

end
